theory Spec2Isabelle
  imports Main "HOL-Library.AList" "HOL-Library.Char_ord"
begin

section \<open>Python values shared by the modules\<close>

text \<open>
  Exceptions that can leave a method are values: a method that may raise returns
  \<open>py_error + result\<close>, \<open>Inl\<close> being the exception.
\<close>

datatype py_error = KeyError | ValueError | AttributeError

text \<open>\<open>str(n)\<close> for a Python int: decimal digits, a minus sign first when negative.\<close>

definition digit_char :: "nat \<Rightarrow> char" where
  "digit_char n = char_of (48 + n)"

fun digits_of_nat :: "nat \<Rightarrow> string" where
  "digits_of_nat n =
     (if n < 10 then [digit_char n] else digits_of_nat (n div 10) @ [digit_char (n mod 10)])"

declare digits_of_nat.simps [simp del]

definition py_str :: "int \<Rightarrow> string" where
  "py_str i = (if i < 0 then CHR ''-'' # digits_of_nat (nat (- i)) else digits_of_nat (nat i))"

section \<open>Part 4: the missionaries and cannibals engine\<close>

subsection \<open>Data\<close>

datatype Side = LEFT | RIGHT

datatype CharacterType = MISSIONARY | CANNIBAL

text \<open>The dataclass \<open>Character\<close>; its fields \<open>id\<close> and \<open>type\<close> are \<open>char_id\<close> and \<open>char_type\<close> here.\<close>

record Character =
  char_id :: string
  char_type :: CharacterType
  location :: Side

record GameState =
  missionaries_left :: int
  cannibals_left :: int
  missionaries_right :: int
  cannibals_right :: int
  boat_side :: Side
  boat_crew :: "string list"
  boat_capacity :: int
  total_missionaries :: int
  total_cannibals :: int
  move_count :: int
  is_game_over :: bool
  is_won :: bool

text \<open>The dictionary built by \<open>_get_state_snapshot\<close>.\<close>

record snapshot =
  snap_missionaries_left :: int
  snap_cannibals_left :: int
  snap_missionaries_right :: int
  snap_cannibals_right :: int
  snap_boat_side :: Side
  snap_boat_crew_count :: nat
  snap_is_safe :: bool

text \<open>The dictionary \<open>move_data\<close> appended to the history by \<open>travel\<close>.\<close>

record move_data =
  move_number :: int
  from_side :: Side
  passengers :: "string list"
  state_before :: snapshot
  to_side :: Side
  state_after :: snapshot

text \<open>The object \<open>MissionariesCannibalsGame\<close>: its three attributes.\<close>

record game =
  state :: GameState
  characters :: "Character list"
  move_history :: "move_data list"

text \<open>
  The second component of every \<open>Tuple[bool, str]\<close> the engine returns. Each constructor
  stands for one format string of the source and carries the values it interpolates:
  \<^item> \<open>Game_is_over\<close>: "Game is over"
  \<^item> \<open>Character_not_found cid\<close>: "Character {character_id} not found"
  \<^item> \<open>Character_on_other_side s b\<close>: "Character is on {s} side, boat is on {b} side"
  \<^item> \<open>Boat_is_full k\<close>: "Boat is full (capacity: {k})"
  \<^item> \<open>Already_on_boat\<close>: "Character is already on the boat"
  \<^item> \<open>Can_add_to_boat\<close>: "Can add to boat"
  \<^item> \<open>Not_on_boat\<close>: "Character is not on the boat"
  \<^item> \<open>Can_remove_from_boat\<close>: "Can remove from boat"
  \<^item> \<open>Added_to_boat cid\<close>: "Added {character_id} to boat"
  \<^item> \<open>Removed_from_boat cid\<close>: "Removed {character_id} from boat"
  \<^item> \<open>Boat_needs_passenger\<close>: "Boat must have at least one passenger"
  \<^item> \<open>Too_many_passengers k\<close>: "Too many passengers (capacity: {k})"
  \<^item> \<open>Can_travel\<close>: "Can travel"
  \<^item> \<open>Traveled_to s\<close>: "Traveled to {s} side"
\<close>

datatype message =
    Game_is_over
  | Character_not_found string
  | Character_on_other_side Side Side
  | Boat_is_full int
  | Already_on_boat
  | Can_add_to_boat
  | Not_on_boat
  | Can_remove_from_boat
  | Added_to_boat string
  | Removed_from_boat string
  | Boat_needs_passenger
  | Too_many_passengers int
  | Can_travel
  | Traveled_to Side

subsection \<open>Initialisation\<close>

text \<open>
  \<open>initialize_game\<close> overwrites all three attributes. \<open>range(n)\<close> is empty for \<open>n \<le> 0\<close>, as
  \<open>[1..n]\<close> is; \<open>char_id\<close> goes on counting from the missionaries to the cannibals.
\<close>

definition initialize_game :: "int \<Rightarrow> int \<Rightarrow> int \<Rightarrow> game" where
  "initialize_game missionaries cannibals capacity =
     \<lparr> state = \<lparr> missionaries_left = missionaries, cannibals_left = cannibals,
                 missionaries_right = 0, cannibals_right = 0,
                 boat_side = LEFT, boat_crew = [], boat_capacity = capacity,
                 total_missionaries = missionaries, total_cannibals = cannibals,
                 move_count = 0, is_game_over = False, is_won = False \<rparr>,
       characters =
         map (\<lambda>i. \<lparr> char_id = ''M'' @ py_str i, char_type = MISSIONARY, location = LEFT \<rparr>)
           [1 .. missionaries]
         @ map (\<lambda>i. \<lparr> char_id = ''C'' @ py_str i, char_type = CANNIBAL, location = LEFT \<rparr>)
             [max 0 missionaries + 1 .. max 0 missionaries + cannibals],
       move_history = [] \<rparr>"

definition restart_game :: "game \<Rightarrow> game" where
  "restart_game g =
     initialize_game (total_missionaries (state g)) (total_cannibals (state g))
       (boat_capacity (state g))"

subsection \<open>Safety\<close>

definition is_safe_state :: "int \<Rightarrow> int \<Rightarrow> int \<Rightarrow> int \<Rightarrow> bool" where
  "is_safe_state m_left c_left m_right c_right =
     (if m_left > 0 \<and> c_left > m_left then False
      else if m_right > 0 \<and> c_right > m_right then False
      else True)"

definition is_current_state_safe :: "game \<Rightarrow> bool" where
  "is_current_state_safe g =
     is_safe_state (missionaries_left (state g)) (cannibals_left (state g))
       (missionaries_right (state g)) (cannibals_right (state g))"

text \<open>The one-bank predicate \<open>is_safe(m, c)\<close> of \<open>cryptic_crossings.py\<close>.\<close>

definition is_safe :: "int \<Rightarrow> int \<Rightarrow> bool" where
  "is_safe m c = (if m = 0 then True else c \<le> m)"

subsection \<open>Characters and counts\<close>

definition get_character :: "game \<Rightarrow> string \<Rightarrow> Character option" where
  "get_character g cid = find (\<lambda>ch. char_id ch = cid) (characters g)"

text \<open>
  \<open>character.location = side\<close> on the object \<open>get_character\<close> returned: the first character
  of the list with that id.
\<close>

fun set_location :: "string \<Rightarrow> Side \<Rightarrow> Character list \<Rightarrow> Character list" where
  "set_location cid s [] = []"
| "set_location cid s (ch # chs) =
     (if char_id ch = cid then ch\<lparr>location := s\<rparr> # chs else ch # set_location cid s chs)"

text \<open>
  The nested \<open>if\<close> on side and type that \<open>add_to_boat\<close> (with \<open>-= 1\<close>), \<open>remove_from_boat\<close> and
  \<open>travel\<close> (with \<open>+= 1\<close>) each spell out: the count of that side and type changes by \<open>d\<close>.
\<close>

definition update_side_count :: "Side \<Rightarrow> CharacterType \<Rightarrow> int \<Rightarrow> GameState \<Rightarrow> GameState" where
  "update_side_count side t d st =
     (if side = LEFT then
        (if t = MISSIONARY then st\<lparr>missionaries_left := missionaries_left st + d\<rparr>
         else st\<lparr>cannibals_left := cannibals_left st + d\<rparr>)
      else
        (if t = MISSIONARY then st\<lparr>missionaries_right := missionaries_right st + d\<rparr>
         else st\<lparr>cannibals_right := cannibals_right st + d\<rparr>))"

definition get_state_snapshot :: "game \<Rightarrow> snapshot" where
  "get_state_snapshot g =
     \<lparr> snap_missionaries_left = missionaries_left (state g),
       snap_cannibals_left = cannibals_left (state g),
       snap_missionaries_right = missionaries_right (state g),
       snap_cannibals_right = cannibals_right (state g),
       snap_boat_side = boat_side (state g),
       snap_boat_crew_count = length (boat_crew (state g)),
       snap_is_safe = is_current_state_safe g \<rparr>"

subsection \<open>Loading and unloading the boat\<close>

definition can_add_to_boat :: "game \<Rightarrow> string \<Rightarrow> bool \<times> message" where
  "can_add_to_boat g cid =
     (if is_game_over (state g) then (False, Game_is_over)
      else case get_character g cid of
        None \<Rightarrow> (False, Character_not_found cid)
      | Some character \<Rightarrow>
          if location character \<noteq> boat_side (state g)
          then (False, Character_on_other_side (location character) (boat_side (state g)))
          else if int (length (boat_crew (state g))) \<ge> boat_capacity (state g)
          then (False, Boat_is_full (boat_capacity (state g)))
          else if cid \<in> set (boat_crew (state g)) then (False, Already_on_boat)
          else (True, Can_add_to_boat))"

definition can_remove_from_boat :: "game \<Rightarrow> string \<Rightarrow> bool \<times> message" where
  "can_remove_from_boat g cid =
     (if is_game_over (state g) then (False, Game_is_over)
      else if cid \<notin> set (boat_crew (state g)) then (False, Not_on_boat)
      else (True, Can_remove_from_boat))"

text \<open>
  The methods mutate \<open>self\<close>; here they return the game after the call beside the tuple.
  \<open>character.type\<close> on \<open>None\<close> would raise \<open>AttributeError\<close>.
\<close>

definition add_to_boat :: "game \<Rightarrow> string \<Rightarrow> py_error + ((bool \<times> message) \<times> game)" where
  "add_to_boat g cid =
     (let (can_add, message) = can_add_to_boat g cid in
      if \<not> can_add then Inr ((False, message), g)
      else case get_character g cid of
        None \<Rightarrow> Inl AttributeError
      | Some character \<Rightarrow>
          let st1 = (state g)\<lparr>boat_crew := boat_crew (state g) @ [cid]\<rparr>;
              chars = set_location cid (boat_side st1) (characters g);
              st2 = update_side_count (boat_side st1) (char_type character) (- 1) st1
          in Inr ((True, Added_to_boat cid), g\<lparr>state := st2, characters := chars\<rparr>))"

text \<open>\<open>list.remove(x)\<close> deletes the first occurrence, which is \<open>remove1\<close>.\<close>

definition remove_from_boat :: "game \<Rightarrow> string \<Rightarrow> py_error + ((bool \<times> message) \<times> game)" where
  "remove_from_boat g cid =
     (let (can_remove, message) = can_remove_from_boat g cid in
      if \<not> can_remove then Inr ((False, message), g)
      else case get_character g cid of
        None \<Rightarrow> Inl AttributeError
      | Some character \<Rightarrow>
          let st1 = (state g)\<lparr>boat_crew := remove1 cid (boat_crew (state g))\<rparr>;
              chars = set_location cid (boat_side st1) (characters g);
              st2 = update_side_count (boat_side st1) (char_type character) 1 st1
          in Inr ((True, Removed_from_boat cid), g\<lparr>state := st2, characters := chars\<rparr>))"

subsection \<open>Crossing\<close>

definition can_travel :: "game \<Rightarrow> bool \<times> message" where
  "can_travel g =
     (if is_game_over (state g) then (False, Game_is_over)
      else if length (boat_crew (state g)) = 0 then (False, Boat_needs_passenger)
      else if int (length (boat_crew (state g))) > boat_capacity (state g)
      then (False, Too_many_passengers (boat_capacity (state g)))
      else (True, Can_travel))"

definition check_game_status :: "game \<Rightarrow> game" where
  "check_game_status g =
     (if \<not> is_current_state_safe g
      then g\<lparr>state := (state g)\<lparr>is_game_over := True, is_won := False\<rparr>\<rparr>
      else if missionaries_left (state g) = 0 \<and> cannibals_left (state g) = 0
              \<and> length (boat_crew (state g)) = 0
      then g\<lparr>state := (state g)\<lparr>is_game_over := True, is_won := True\<rparr>\<rparr>
      else g)"

text \<open>The loop of \<open>travel\<close> over the crew: each passenger lands on the new side.\<close>

fun move_passengers :: "Side \<Rightarrow> string list \<Rightarrow> game \<Rightarrow> py_error + game" where
  "move_passengers new_side [] g = Inr g"
| "move_passengers new_side (cid # rest) g =
     (case get_character g cid of
        None \<Rightarrow> Inl AttributeError
      | Some character \<Rightarrow>
          move_passengers new_side rest
            (g\<lparr>characters := set_location cid new_side (characters g),
               state := update_side_count new_side (char_type character) 1 (state g)\<rparr>))"

definition travel :: "game \<Rightarrow> py_error + ((bool \<times> message) \<times> game)" where
  "travel g =
     (let (ok, message) = can_travel g in
      if \<not> ok then Inr ((False, message), g)
      else
        let number = move_count (state g) + 1;
            origin = boat_side (state g);
            crew = boat_crew (state g);
            before = get_state_snapshot g;
            new_side = (if boat_side (state g) = LEFT then RIGHT else LEFT);
            g1 = g\<lparr>state := (state g)\<lparr>boat_side := new_side\<rparr>\<rparr>
        in case move_passengers new_side (boat_crew (state g1)) g1 of
             Inl e \<Rightarrow> Inl e
           | Inr g2 \<Rightarrow>
               let g3 = g2\<lparr>state := (state g2)\<lparr>boat_crew := []\<rparr>\<rparr>;
                   g4 = g3\<lparr>state := (state g3)\<lparr>move_count := move_count (state g3) + 1\<rparr>\<rparr>;
                   g5 = g4\<lparr>move_history := move_history g4 @
                          [\<lparr> move_number = number, from_side = origin, passengers = crew,
                              state_before = before, to_side = new_side,
                              state_after = get_state_snapshot g4 \<rparr>]\<rparr>
               in Inr ((True, Traveled_to new_side), check_game_status g5))"

subsection \<open>Sequences of calls\<close>

text \<open>
  A caller's session with the engine is a list of calls; \<open>run\<close> makes them in order from
  a game and stops at an exception.
\<close>

datatype call = Add string | Remove string | Travel

definition do_call :: "game \<Rightarrow> call \<Rightarrow> py_error + ((bool \<times> message) \<times> game)" where
  "do_call g c =
     (case c of Add cid \<Rightarrow> add_to_boat g cid
      | Remove cid \<Rightarrow> remove_from_boat g cid
      | Travel \<Rightarrow> travel g)"

fun run :: "call list \<Rightarrow> game \<Rightarrow> py_error + game" where
  "run [] g = Inr g"
| "run (c # cs) g = (case do_call g c of Inl e \<Rightarrow> Inl e | Inr (r, g') \<Rightarrow> run cs g')"

text \<open>How many ids of the boat crew belong to a character of type \<open>t\<close>.\<close>

definition boat_count :: "game \<Rightarrow> CharacterType \<Rightarrow> int" where
  "boat_count g t =
     int (length (filter (\<lambda>cid. map_option char_type (get_character g cid) = Some t)
            (boat_crew (state g))))"

definition conserved :: "int \<Rightarrow> int \<Rightarrow> game \<Rightarrow> bool" where
  "conserved m c g \<longleftrightarrow>
     missionaries_left (state g) + missionaries_right (state g) + boat_count g MISSIONARY = m
     \<and> cannibals_left (state g) + cannibals_right (state g) + boat_count g CANNIBAL = c"

subsection \<open>Auxiliary notions for the proofs about the engine\<close>

definition type_of :: "Character list \<Rightarrow> string \<Rightarrow> CharacterType option" where
  "type_of chs cid = map_option char_type (find (\<lambda>ch. char_id ch = cid) chs)"

definition crew_types :: "Character list \<Rightarrow> string list \<Rightarrow> CharacterType \<Rightarrow> int" where
  "crew_types chs crew t = int (length (filter (\<lambda>cid. type_of chs cid = Some t) crew))"

definition crew_known :: "game \<Rightarrow> bool" where
  "crew_known g \<longleftrightarrow> (\<forall>cid \<in> set (boat_crew (state g)). type_of (characters g) cid \<noteq> None)"

definition landed :: "game \<Rightarrow> game \<Rightarrow> game" where
  "landed g g2 =
     g2\<lparr>state := (state g2)\<lparr>boat_crew := [], move_count := move_count (state g2) + 1\<rparr>,
        move_history := move_history g2 @
          [\<lparr> move_number = move_count (state g) + 1, from_side = boat_side (state g),
              passengers = boat_crew (state g), state_before = get_state_snapshot g,
              to_side = (if boat_side (state g) = LEFT then RIGHT else LEFT),
              state_after = get_state_snapshot
                (g2\<lparr>state := (state g2)\<lparr>boat_crew := [],
                                           move_count := move_count (state g2) + 1\<rparr>\<rparr>) \<rparr>]\<rparr>"

definition failing_check :: "game \<Rightarrow> string \<Rightarrow> message" where
  "failing_check g cid =
     (if is_game_over (state g) then Game_is_over
      else case get_character g cid of
        None \<Rightarrow> Character_not_found cid
      | Some ch \<Rightarrow>
          if location ch \<noteq> boat_side (state g)
          then Character_on_other_side (location ch) (boat_side (state g))
          else if boat_capacity (state g) \<le> int (length (boat_crew (state g)))
          then Boat_is_full (boat_capacity (state g))
          else Already_on_boat)"


section \<open>Part 3: the cryptarithmetic validator and solver\<close>

subsection \<open>Data\<close>

text \<open>
  A letter is a one-character string, here a \<open>char\<close>. A \<open>Dict[str, int]\<close> from letters to
  digits is an association list in insertion order whose keys are distinct; a value is
  \<open>None\<close> where the source tests \<open>is None\<close>. For such a list \<open>len\<close> is \<open>length\<close>, \<open>keys()\<close> is
  \<open>map fst\<close>, \<open>values()\<close> is \<open>map snd\<close>, \<open>get\<close> and \<open>in\<close> are \<open>map_of\<close>, \<open>d[k] = v\<close> is
  \<open>AList.update\<close> (a new key goes last) and \<open>del d[k]\<close> is \<open>AList.delete\<close>.
\<close>

type_synonym guess_map = "(char \<times> int option) list"

text \<open>The dictionary \<open>current_puzzle\<close>.\<close>

record puzzle =
  puzzle_words :: "string list"
  puzzle_unique_letters :: "char list"

text \<open>
  The solver object: \<open>solution_cache\<close> is a dictionary from the tuple \<open>puzzle_key\<close> to the
  \<open>Optional\<close> solution.
\<close>

record CryptarithmeticSolver =
  current_puzzle :: "puzzle option"
  solution_cache :: "(string list \<times> guess_map option) list"

definition new_solver :: CryptarithmeticSolver where
  "new_solver = \<lparr> current_puzzle = None, solution_cache = [] \<rparr>"

text \<open>
  What \<open>_word_to_number\<close> raises: \<open>KeyError\<close> (\<open>Letter_not_found\<close>) or \<open>ValueError\<close> (the other
  three, \<open>Invalid_literal\<close> being the one \<open>int()\<close> raises).
\<close>

datatype word_error =
    Empty_word
  | Letter_not_found char
  | No_assigned_digit char
  | Invalid_literal string

text \<open>
  The messages of the validator, one constructor for each format string:
  \<^item> \<open>No_puzzle_loaded\<close>: "No puzzle loaded"
  \<^item> \<open>Missing_assignments ls\<close>: "Missing assignments for: {', '.join(sorted(missing_letters))}"
  \<^item> \<open>Extra_assignments ls\<close>: "Extra assignments for: {', '.join(sorted(extra_letters))}"
  \<^item> \<open>Duplicate_digit_assignments ds\<close>: "Duplicate digit assignments: {duplicates}", a pair
    of \<open>ds\<close> for every "{digit} -> {', '.join(letters)}"
  \<^item> \<open>Leading_letter_zero c\<close>: "Leading letter '{word[0]}' cannot be zero"
  \<^item> \<open>Needs_three_words\<close>: "Puzzle must have exactly 3 words (operand1, operand2, result)"
  \<^item> \<open>Correct a b r\<close>: "Correct: {num1} + {num2} = {result}"
  \<^item> \<open>Incorrect a b r s\<close>: "Incorrect: {num1} + {num2} /= {result} (equals {num1 + num2})"
  \<^item> \<open>Missing_digit_for e\<close>: "Missing digit assignment for letter: {e}"
  \<^item> \<open>Invalid_number_conversion e\<close>: "Invalid number conversion: {e}"
  \<^item> \<open>Solution_is_correct\<close>: "Solution is correct!"
\<close>

datatype crypt_message =
    No_puzzle_loaded
  | Missing_assignments "char list"
  | Extra_assignments "char list"
  | Duplicate_digit_assignments "(int \<times> char list) list"
  | Leading_letter_zero char
  | Needs_three_words
  | Correct int int int
  | Incorrect int int int int
  | Missing_digit_for word_error
  | Invalid_number_conversion word_error
  | Solution_is_correct

subsection \<open>Words as numbers\<close>

text \<open>
  \<open>int(s)\<close> on the strings \<open>_word_to_number\<close> builds, which are made of \<open>str(i)\<close> pieces and
  so of the characters \<open>-\<close> and \<open>0\<close> to \<open>9\<close>: digits, or a minus sign and digits, anything
  else raising \<open>ValueError\<close>. (The length limit newer interpreters put on \<open>int()\<close> is not
  modelled.)
\<close>

definition is_digit :: "char \<Rightarrow> bool" where
  "is_digit c \<longleftrightarrow> CHR ''0'' \<le> c \<and> c \<le> CHR ''9''"

definition nat_of_digits :: "string \<Rightarrow> nat" where
  "nat_of_digits s = foldl (\<lambda>n c. 10 * n + (of_char c - 48)) 0 s"

definition py_int :: "string \<Rightarrow> word_error + int" where
  "py_int s =
     (case s of
        [] \<Rightarrow> Inl (Invalid_literal s)
      | c # ds \<Rightarrow>
          if c = CHR ''-'' then
            (if ds \<noteq> [] \<and> list_all is_digit ds then Inr (- int (nat_of_digits ds))
             else Inl (Invalid_literal s))
          else if list_all is_digit s then Inr (int (nat_of_digits s))
          else Inl (Invalid_literal s))"

text \<open>The loop of \<open>_word_to_number\<close>, \<open>number_str\<close> being the accumulator.\<close>

fun number_string :: "string \<Rightarrow> guess_map \<Rightarrow> string \<Rightarrow> word_error + string" where
  "number_string [] guess_map number_str = Inr number_str"
| "number_string (c # cs) guess_map number_str =
     (case map_of guess_map c of
        None \<Rightarrow> Inl (Letter_not_found c)
      | Some None \<Rightarrow> Inl (No_assigned_digit c)
      | Some (Some d) \<Rightarrow> number_string cs guess_map (number_str @ py_str d))"

definition word_to_number :: "string \<Rightarrow> guess_map \<Rightarrow> word_error + int" where
  "word_to_number word guess_map =
     (if word = [] then Inl Empty_word
      else case number_string word guess_map [] of
        Inl e \<Rightarrow> Inl e
      | Inr number_str \<Rightarrow> py_int number_str)"

text \<open>
  \<open>_verify_mathematics\<close> catches what \<open>_word_to_number\<close> raises: a \<open>KeyError\<close> becomes
  \<open>Missing_digit_for\<close>, a \<open>ValueError\<close> becomes \<open>Invalid_number_conversion\<close>.
\<close>

definition conversion_failure :: "word_error \<Rightarrow> bool \<times> crypt_message" where
  "conversion_failure e =
     (case e of Letter_not_found c \<Rightarrow> (False, Missing_digit_for e)
      | _ \<Rightarrow> (False, Invalid_number_conversion e))"

definition verify_mathematics :: "string list \<Rightarrow> guess_map \<Rightarrow> bool \<times> crypt_message" where
  "verify_mathematics words guess_map =
     (if length words \<noteq> 3 then (False, Needs_three_words)
      else case word_to_number (words ! 0) guess_map of
        Inl e \<Rightarrow> conversion_failure e
      | Inr num1 \<Rightarrow>
         (case word_to_number (words ! 1) guess_map of
            Inl e \<Rightarrow> conversion_failure e
          | Inr num2 \<Rightarrow>
             (case word_to_number (words ! 2) guess_map of
                Inl e \<Rightarrow> conversion_failure e
              | Inr result \<Rightarrow>
                  if num1 + num2 = result then (True, Correct num1 num2 result)
                  else (False, Incorrect num1 num2 result (num1 + num2)))))"

subsection \<open>The validator\<close>

definition set_puzzle ::
  "CryptarithmeticSolver \<Rightarrow> string list \<Rightarrow> char list \<Rightarrow> CryptarithmeticSolver" where
  "set_puzzle solver words unique_letters =
     solver\<lparr>current_puzzle :=
               Some \<lparr> puzzle_words = words, puzzle_unique_letters = unique_letters \<rparr>,
            solution_cache := []\<rparr>"

text \<open>
  \<open>_find_duplicate_assignments\<close>: \<open>digit_to_letters\<close> collects, digit by digit in the order
  the digits first occur, the letters holding it; the digits with more than one letter are
  reported.
\<close>

definition add_letter :: "int \<Rightarrow> char \<Rightarrow> (int \<times> char list) list \<Rightarrow> (int \<times> char list) list" where
  "add_letter digit letter digit_to_letters =
     (case map_of digit_to_letters digit of
        None \<Rightarrow> digit_to_letters @ [(digit, [letter])]
      | Some letters \<Rightarrow> AList.update digit (letters @ [letter]) digit_to_letters)"

definition find_duplicate_assignments :: "guess_map \<Rightarrow> (int \<times> char list) list" where
  "find_duplicate_assignments guess_map =
     filter (\<lambda>(digit, letters). length letters > 1)
       (foldl (\<lambda>digit_to_letters (letter, v).
                 case v of None \<Rightarrow> digit_to_letters
                 | Some digit \<Rightarrow> add_letter digit letter digit_to_letters)
          [] guess_map)"

text \<open>
  \<open>validate_input\<close>. \<open>sorted\<close> of a set of letters is \<open>sort\<close> of the list without repetitions;
  \<open>len(set(xs)) != len(xs)\<close> compares \<open>remdups xs\<close> with \<open>xs\<close>. Rule 3 returns at the first
  word whose first letter has the digit 0. Nothing that \<open>_verify_mathematics\<close> calls lets a
  \<open>ValueError\<close> out, so the handler around rule 4 has no case here.
\<close>

definition validate_input :: "CryptarithmeticSolver \<Rightarrow> guess_map \<Rightarrow> bool \<times> crypt_message" where
  "validate_input solver guess_map =
     (case current_puzzle solver of
        None \<Rightarrow> (False, No_puzzle_loaded)
      | Some p \<Rightarrow>
          let words = puzzle_words p;
              letters = puzzle_unique_letters p;
              missing_letters = filter (\<lambda>l. l \<notin> set (map fst guess_map)) letters;
              extra_letters = filter (\<lambda>l. l \<notin> set letters) (map fst guess_map);
              assigned_digits = List.map_filter (\<lambda>d. d) (map snd guess_map)
          in
          if length guess_map \<noteq> length letters \<and> missing_letters \<noteq> []
          then (False, Missing_assignments (sort (remdups missing_letters)))
          else if length guess_map \<noteq> length letters \<and> extra_letters \<noteq> []
          then (False, Extra_assignments (sort (remdups extra_letters)))
          else if length (remdups assigned_digits) \<noteq> length assigned_digits
          then (False, Duplicate_digit_assignments (find_duplicate_assignments guess_map))
          else case find (\<lambda>word. word \<noteq> [] \<and> map_of guess_map (hd word) = Some (Some 0)) words of
            Some word \<Rightarrow> (False, Leading_letter_zero (hd word))
          | None \<Rightarrow>
              let (is_correct, math_error) = verify_mathematics words guess_map in
              if \<not> is_correct then (False, math_error)
              else (True, Solution_is_correct))"


subsection \<open>The solver\<close>







subsection \<open>Sequences of calls to the solver\<close>





subsection \<open>Auxiliary notions for the proofs about the solver\<close>

text \<open>
  \<open>admissible leading used letters digits\<close>: the digits, one for each letter in order, are
  digits the search may choose from \<open>used\<close> on: each from 0 to 9, none used before, none 0 for
  a leading letter. \<open>extended\<close> is the assignment after these choices, and \<open>search_result\<close> what
  a search from \<open>assignment\<close> and \<open>used\<close> over \<open>letters\<close> must return: \<open>None\<close> with both
  restored when no admissible choice verifies, an admissible verified extension otherwise.
\<close>

fun admissible :: "char set \<Rightarrow> int set \<Rightarrow> char list \<Rightarrow> int list \<Rightarrow> bool" where
  "admissible leading used [] [] = True"
| "admissible leading used (l # ls) (d # ds) =
     (0 \<le> d \<and> d \<le> 9 \<and> d \<notin> used \<and> \<not> (l \<in> leading \<and> d = 0)
      \<and> admissible leading (insert d used) ls ds)"
| "admissible leading used _ _ = False"




section \<open>Parts 1 and 6: the levels and the game controller\<close>

text \<open>An entry of \<open>LEVELS\<close>: the fields the puzzles and the controller read.\<close>

record level =
  level_words :: "string list"
  level_unique_letters :: "char list"
  final_m :: int
  final_c :: int
  final_k :: int

definition LEVELS :: "level list" where
  "LEVELS =
     [ \<lparr> level_words = [''SEND'', ''MORE'', ''MONEY''], level_unique_letters = ''SENDMORY'',
         final_m = 3, final_c = 3, final_k = 2 \<rparr>,
       \<lparr> level_words = [''TWO'', ''TWO'', ''FOUR''], level_unique_letters = ''TWOFUR'',
         final_m = 4, final_c = 4, final_k = 3 \<rparr>,
       \<lparr> level_words = [''THIS'', ''IS'', ''GOOD''], level_unique_letters = ''THISGOD'',
         final_m = 5, final_c = 5, final_k = 3 \<rparr> ]"

definition get_level_count :: int where
  "get_level_count = int (length LEVELS)"

text \<open>
  The calls the controller makes to the persistence module: \<open>load_progress()\<close>,
  \<open>save_progress(level_index)\<close> and \<open>record_attempt(level_index, puzzle_type, success)\<close>.
  The controller state keeps them in the order they were made.
\<close>

datatype puzzle_type = Cryptarithmetic | River_crossing

datatype persistence_call =
    Load_progress
  | Save_progress int
  | Record_attempt int puzzle_type bool

text \<open>
  \<open>CrypticCrossingsGame\<close> of part 6 with what its collaborators hold: \<open>river_unlocked\<close> is
  \<open>river_ui.is_unlocked\<close>, \<open>crypto_level_index\<close> is \<open>crypto_ui.current_level_index\<close>,
  \<open>river_game\<close> is the module-level engine \<open>missionaries_cannibals_game\<close>, and
  \<open>pending_checks\<close> counts the calls \<open>after(1000, self._check_game_status)\<close> has scheduled
  and Tk has not run yet. Windows, message boxes and sounds are not modelled, and a callback
  runs to its end before the next one starts.
\<close>

record controller =
  current_level :: int
  highest_level_completed :: int
  river_unlocked :: bool
  crypto_level_index :: int
  river_game :: game
  pending_checks :: nat
  persistence_calls :: "persistence_call list"

text \<open>The engine as \<open>MissionariesCannibalsGame()\<close> creates it: \<open>GameState()\<close> with its defaults.\<close>

definition new_game :: game where
  "new_game =
     \<lparr> state = \<lparr> missionaries_left = 0, cannibals_left = 0,
                 missionaries_right = 0, cannibals_right = 0,
                 boat_side = LEFT, boat_crew = [], boat_capacity = 2,
                 total_missionaries = 0, total_cannibals = 0,
                 move_count = 0, is_game_over = False, is_won = False \<rparr>,
       characters = [], move_history = [] \<rparr>"

definition load_level :: "controller \<Rightarrow> int \<Rightarrow> controller" where
  "load_level c level_index =
     (if \<not> (0 \<le> level_index \<and> level_index < get_level_count) then c
      else c\<lparr>current_level := level_index, crypto_level_index := level_index,
             river_unlocked := False\<rparr>)"

text \<open>\<open>__init__\<close>: \<open>stored\<close> is what \<open>load_progress()\<close> returned.\<close>

definition controller_init :: "int \<Rightarrow> controller" where
  "controller_init stored =
     load_level
       \<lparr> current_level = 0, highest_level_completed = stored, river_unlocked = False,
         crypto_level_index = 0, river_game = new_game, pending_checks = 0,
         persistence_calls = [Load_progress] \<rparr>
       (min stored (get_level_count - 1))"

definition on_crypto_solution :: "controller \<Rightarrow> bool \<Rightarrow> controller" where
  "on_crypto_solution c is_valid =
     (let level_data = LEVELS ! nat (current_level c) in
      if is_valid then
        c\<lparr>river_unlocked := True,
          river_game := initialize_game (final_m level_data) (final_c level_data)
                          (final_k level_data),
          persistence_calls := persistence_calls c
             @ [Record_attempt (current_level c) Cryptarithmetic True]\<rparr>
      else
        c\<lparr>river_unlocked := False,
          persistence_calls := persistence_calls c
             @ [Record_attempt (current_level c) Cryptarithmetic False]\<rparr>)"

definition on_river_complete :: "controller \<Rightarrow> controller" where
  "on_river_complete c =
     (let c1 = c\<lparr>persistence_calls := persistence_calls c
                   @ [Record_attempt (current_level c) River_crossing True]\<rparr>;
          c2 = (if current_level c1 \<ge> highest_level_completed c1
                then c1\<lparr>highest_level_completed := current_level c1 + 1,
                        persistence_calls := persistence_calls c1
                          @ [Save_progress (current_level c1 + 1)]\<rparr>
                else c1)
      in if current_level c2 < get_level_count - 1
         then load_level c2 (current_level c2 + 1)
         else load_level c2 0)"

subsection \<open>The callbacks of the river panel\<close>

text \<open>
  \<open>RiverCrossingUI._on_character_click\<close>, \<open>_travel_boat\<close>, \<open>_restart_river_challenge\<close> and
  \<open>_check_game_status\<close>. An exception of the engine would end the callback; the model then
  leaves the controller as it was (no session reaches such a call, see \<open>session_crew_known\<close>).
  A successful \<open>travel\<close> schedules one status check. \<open>_check_game_status\<close> calls
  \<open>on_complete_callback\<close>, which is \<open>_on_river_complete\<close>, when the engine is over and won.
\<close>

definition on_character_click :: "controller \<Rightarrow> string \<Rightarrow> controller" where
  "on_character_click c character_id =
     (if \<not> river_unlocked c then c
      else case get_character (river_game c) character_id of
        None \<Rightarrow> c
      | Some character \<Rightarrow>
          (case (if character_id \<in> set (boat_crew (state (river_game c)))
                 then remove_from_boat (river_game c) character_id
                 else add_to_boat (river_game c) character_id) of
             Inl e \<Rightarrow> c
           | Inr (result, g) \<Rightarrow> c\<lparr>river_game := g\<rparr>))"

definition travel_boat :: "controller \<Rightarrow> controller" where
  "travel_boat c =
     (if \<not> river_unlocked c then c
      else case travel (river_game c) of
        Inl e \<Rightarrow> c
      | Inr ((success, message), g) \<Rightarrow>
          if success then c\<lparr>river_game := g, pending_checks := pending_checks c + 1\<rparr>
          else c\<lparr>river_game := g\<rparr>)"

definition restart_river_challenge :: "controller \<Rightarrow> controller" where
  "restart_river_challenge c =
     (if river_unlocked c then c\<lparr>river_game := restart_game (river_game c)\<rparr> else c)"

definition check_status :: "controller \<Rightarrow> controller" where
  "check_status c =
     (if is_game_over (state (river_game c)) then
        (if is_won (state (river_game c)) then on_river_complete c
         else restart_river_challenge c)
      else c)"

text \<open>
  A session: the controller is created, then Tk delivers callbacks in some order. A status
  check runs only when one is pending, and is then no longer pending.
\<close>

datatype callback =
    Crypto_solution bool
  | Character_click string
  | Travel_click
  | Restart_click
  | Status_check

definition handle :: "controller \<Rightarrow> callback \<Rightarrow> controller" where
  "handle c e =
     (case e of
        Crypto_solution v \<Rightarrow> on_crypto_solution c v
      | Character_click character_id \<Rightarrow> on_character_click c character_id
      | Travel_click \<Rightarrow> travel_boat c
      | Restart_click \<Rightarrow> restart_river_challenge c
      | Status_check \<Rightarrow>
          if pending_checks c = 0 then c
          else check_status (c\<lparr>pending_checks := pending_checks c - 1\<rparr>))"

definition session :: "int \<Rightarrow> callback list \<Rightarrow> controller" where
  "session stored events = foldl handle (controller_init stored) events"


definition loads :: "persistence_call list \<Rightarrow> nat" where
  "loads cs = length (filter (\<lambda>e. e = Load_progress) cs)"

definition saves :: "persistence_call list \<Rightarrow> int list" where
  "saves cs = concat (map (\<lambda>e. case e of Save_progress i \<Rightarrow> [i] | _ \<Rightarrow> []) cs)"




section \<open>Properties of the engine\<close>


lemma type_of_set_location [simp]:
  "type_of (set_location cid s chs) x = type_of chs x"
  by (induction chs) (auto simp: type_of_def)

lemma crew_types_set_location [simp]:
  "crew_types (set_location cid s chs) crew t = crew_types chs crew t"
  by (simp add: crew_types_def)

lemma get_character_type_of:
  "map_option char_type (get_character g cid) = type_of (characters g) cid"
  by (simp add: get_character_def type_of_def)

lemma get_character_Some_type:
  "get_character g cid = Some ch \<Longrightarrow> type_of (characters g) cid = Some (char_type ch)"
  by (simp add: get_character_def type_of_def)

lemma get_character_None_type:
  "get_character g cid = None \<Longrightarrow> type_of (characters g) cid = None"
  by (simp add: get_character_def type_of_def)

lemma boat_count_crew_types:
  "boat_count g t = crew_types (characters g) (boat_crew (state g)) t"
  by (simp add: boat_count_def crew_types_def get_character_type_of)

lemma crew_types_append:
  "crew_types chs (xs @ ys) t = crew_types chs xs t + crew_types chs ys t"
  by (simp add: crew_types_def)

lemma crew_types_Cons:
  "crew_types chs (x # xs) t = (if type_of chs x = Some t then 1 else 0) + crew_types chs xs t"
  by (simp add: crew_types_def)

lemma crew_types_Nil [simp]: "crew_types chs [] t = 0"
  by (simp add: crew_types_def)

lemma crew_types_remove1:
  "x \<in> set xs \<Longrightarrow>
     crew_types chs (remove1 x xs) t = crew_types chs xs t - (if type_of chs x = Some t then 1 else 0)"
  by (induction xs) (auto simp: crew_types_Cons)

lemma update_side_count_frame [simp]:
  "boat_side (update_side_count s t d st) = boat_side st"
  "boat_crew (update_side_count s t d st) = boat_crew st"
  "boat_capacity (update_side_count s t d st) = boat_capacity st"
  "total_missionaries (update_side_count s t d st) = total_missionaries st"
  "total_cannibals (update_side_count s t d st) = total_cannibals st"
  "move_count (update_side_count s t d st) = move_count st"
  "is_game_over (update_side_count s t d st) = is_game_over st"
  "is_won (update_side_count s t d st) = is_won st"
  by (simp_all add: update_side_count_def)

lemma update_side_count_sums:
  "missionaries_left (update_side_count s t d st) + missionaries_right (update_side_count s t d st)
     = missionaries_left st + missionaries_right st + (if t = MISSIONARY then d else 0)"
  "cannibals_left (update_side_count s t d st) + cannibals_right (update_side_count s t d st)
     = cannibals_left st + cannibals_right st + (if t = CANNIBAL then d else 0)"
  by (cases t; simp add: update_side_count_def)+

lemma update_side_count_inverse:
  "update_side_count s t 1 (update_side_count s t (- 1) st) = st"
  by (simp add: update_side_count_def)

text \<open>add\<close>

lemma add_to_boat_returns: "\<exists>r g'. add_to_boat g cid = Inr (r, g')"
  by (auto simp: add_to_boat_def can_add_to_boat_def split: option.splits prod.splits if_splits)

lemma add_to_boat_success:
  assumes "add_to_boat g cid = Inr ((True, msg), g')"
  obtains ch where "get_character g cid = Some ch" "\<not> is_game_over (state g)"
    "location ch = boat_side (state g)" "int (length (boat_crew (state g))) < boat_capacity (state g)"
    "cid \<notin> set (boat_crew (state g))" "msg = Added_to_boat cid"
    "g' = g\<lparr>state := update_side_count (boat_side (state g)) (char_type ch) (- 1)
                      ((state g)\<lparr>boat_crew := boat_crew (state g) @ [cid]\<rparr>),
             characters := set_location cid (boat_side (state g)) (characters g)\<rparr>"
  using assms
  by (auto simp: add_to_boat_def can_add_to_boat_def Let_def
      split: option.splits prod.splits if_splits)

lemma add_to_boat_failure:
  assumes "add_to_boat g cid = Inr ((False, msg), g')"
  shows "g' = g" "can_add_to_boat g cid = (False, msg)"
  using assms
  by (auto simp: add_to_boat_def Let_def split: option.splits prod.splits if_splits)

lemma add_to_boat_invariant:
  assumes "add_to_boat g cid = Inr (r, g')" "crew_known g" "conserved m c g"
  shows "crew_known g' \<and> conserved m c g'"
proof (cases r)
  case (Pair ok msg)
  show ?thesis
  proof (cases ok)
    case False
    with Pair assms(1) have "g' = g" by (simp add: add_to_boat_failure(1))
    with assms show ?thesis by simp
  next
    case True
    with Pair assms(1) have "add_to_boat g cid = Inr ((True, msg), g')" by simp
    then obtain ch where ch: "get_character g cid = Some ch"
      and g': "g' = g\<lparr>state := update_side_count (boat_side (state g)) (char_type ch) (- 1)
                      ((state g)\<lparr>boat_crew := boat_crew (state g) @ [cid]\<rparr>),
             characters := set_location cid (boat_side (state g)) (characters g)\<rparr>"
      by (rule add_to_boat_success)
    have t: "type_of (characters g) cid = Some (char_type ch)"
      using ch by (rule get_character_Some_type)
    have "crew_known g'"
      using assms(2) t by (auto simp: g' crew_known_def)
    moreover have "conserved m c g'"
      using assms(3) t
      by (cases "char_type ch")
         (simp_all add: g' conserved_def boat_count_crew_types crew_types_append
            crew_types_Cons update_side_count_sums)
    ultimately show ?thesis by simp
  qed
qed

text \<open>remove\<close>

lemma get_character_None_iff:
  "get_character g cid = None \<longleftrightarrow> type_of (characters g) cid = None"
  by (simp add: get_character_def type_of_def)

lemma remove_from_boat_returns:
  "crew_known g \<Longrightarrow> \<exists>r g'. remove_from_boat g cid = Inr (r, g')"
  by (auto simp: remove_from_boat_def can_remove_from_boat_def crew_known_def Let_def
      get_character_None_iff split: option.splits prod.splits if_splits)

lemma remove_from_boat_success:
  assumes "remove_from_boat g cid = Inr ((True, msg), g')"
  obtains ch where "get_character g cid = Some ch" "\<not> is_game_over (state g)"
    "cid \<in> set (boat_crew (state g))" "msg = Removed_from_boat cid"
    "g' = g\<lparr>state := update_side_count (boat_side (state g)) (char_type ch) 1
                      ((state g)\<lparr>boat_crew := remove1 cid (boat_crew (state g))\<rparr>),
             characters := set_location cid (boat_side (state g)) (characters g)\<rparr>"
  using assms
  by (auto simp: remove_from_boat_def can_remove_from_boat_def Let_def
      split: option.splits prod.splits if_splits)

lemma remove_from_boat_failure:
  assumes "remove_from_boat g cid = Inr ((False, msg), g')"
  shows "g' = g" "can_remove_from_boat g cid = (False, msg)"
  using assms
  by (auto simp: remove_from_boat_def Let_def split: option.splits prod.splits if_splits)

lemma remove_from_boat_invariant:
  assumes "remove_from_boat g cid = Inr (r, g')" "crew_known g" "conserved m c g"
  shows "crew_known g' \<and> conserved m c g'"
proof (cases r)
  case (Pair ok msg)
  show ?thesis
  proof (cases ok)
    case False
    with Pair assms(1) have "g' = g" by (simp add: remove_from_boat_failure(1))
    with assms show ?thesis by simp
  next
    case True
    with Pair assms(1) have "remove_from_boat g cid = Inr ((True, msg), g')" by simp
    then obtain ch where ch: "get_character g cid = Some ch"
      and mem: "cid \<in> set (boat_crew (state g))"
      and g': "g' = g\<lparr>state := update_side_count (boat_side (state g)) (char_type ch) 1
                      ((state g)\<lparr>boat_crew := remove1 cid (boat_crew (state g))\<rparr>),
             characters := set_location cid (boat_side (state g)) (characters g)\<rparr>"
      by (rule remove_from_boat_success)
    have t: "type_of (characters g) cid = Some (char_type ch)"
      using ch by (rule get_character_Some_type)
    have "crew_known g'"
      using assms(2) by (auto simp: g' crew_known_def dest: notin_set_remove1)
    moreover have "conserved m c g'"
      using assms(3) t mem
      by (cases "char_type ch")
         (simp_all add: g' conserved_def boat_count_crew_types crew_types_remove1
            update_side_count_sums)
    ultimately show ?thesis by simp
  qed
qed

text \<open>travel\<close>

lemma move_passengers_ok:
  assumes "\<forall>cid \<in> set crew. type_of (characters g) cid \<noteq> None"
  shows "\<exists>g'. move_passengers s crew g = Inr g'"
  using assms
proof (induction crew arbitrary: g)
  case Nil
  then show ?case by simp
next
  case (Cons cid rest)
  then obtain ch where "get_character g cid = Some ch"
    by (cases "get_character g cid") (auto dest: get_character_None_type)
  then show ?case using Cons by simp
qed

lemma move_passengers_frame:
  assumes "move_passengers s crew g = Inr g'"
  shows "boat_side (state g') = boat_side (state g)"
    and "boat_crew (state g') = boat_crew (state g)"
    and "boat_capacity (state g') = boat_capacity (state g)"
    and "total_missionaries (state g') = total_missionaries (state g)"
    and "total_cannibals (state g') = total_cannibals (state g)"
    and "move_count (state g') = move_count (state g)"
    and "is_game_over (state g') = is_game_over (state g)"
    and "is_won (state g') = is_won (state g)"
    and "move_history g' = move_history g"
    and "type_of (characters g') x = type_of (characters g) x"
  using assms
  by (induction crew arbitrary: g; simp split: option.splits; fastforce)+

lemma move_passengers_sums:
  assumes "move_passengers s crew g = Inr g'"
  shows "missionaries_left (state g') + missionaries_right (state g')
           = missionaries_left (state g) + missionaries_right (state g)
             + crew_types (characters g) crew MISSIONARY"
    and "cannibals_left (state g') + cannibals_right (state g')
           = cannibals_left (state g) + cannibals_right (state g)
             + crew_types (characters g) crew CANNIBAL"
  using assms
proof (induction crew arbitrary: g)
  case Nil
  { case 1 then show ?case by simp }
  { case 2 then show ?case by simp }
next
  case (Cons cid rest)
  { case 1
    then obtain ch where ch: "get_character g cid = Some ch"
      by (cases "get_character g cid") auto
    let ?g1 = "g\<lparr>characters := set_location cid s (characters g),
               state := update_side_count s (char_type ch) 1 (state g)\<rparr>"
    from 1 ch have "move_passengers s rest ?g1 = Inr g'" by simp
    from Cons.IH(1)[OF this] get_character_Some_type[OF ch]
    show ?case
      by (cases "char_type ch") (simp_all add: update_side_count_sums crew_types_Cons) }
  { case 2
    then obtain ch where ch: "get_character g cid = Some ch"
      by (cases "get_character g cid") auto
    let ?g1 = "g\<lparr>characters := set_location cid s (characters g),
               state := update_side_count s (char_type ch) 1 (state g)\<rparr>"
    from 2 ch have "move_passengers s rest ?g1 = Inr g'" by simp
    from Cons.IH(2)[OF this] get_character_Some_type[OF ch]
    show ?case
      by (cases "char_type ch") (simp_all add: update_side_count_sums crew_types_Cons) }
qed


lemma check_game_status_frame [simp]:
  "missionaries_left (state (check_game_status g)) = missionaries_left (state g)"
  "cannibals_left (state (check_game_status g)) = cannibals_left (state g)"
  "missionaries_right (state (check_game_status g)) = missionaries_right (state g)"
  "cannibals_right (state (check_game_status g)) = cannibals_right (state g)"
  "boat_side (state (check_game_status g)) = boat_side (state g)"
  "boat_crew (state (check_game_status g)) = boat_crew (state g)"
  "boat_capacity (state (check_game_status g)) = boat_capacity (state g)"
  "move_count (state (check_game_status g)) = move_count (state g)"
  "characters (check_game_status g) = characters g"
  "move_history (check_game_status g) = move_history g"
  by (simp_all add: check_game_status_def)

lemma is_current_state_safe_check [simp]:
  "is_current_state_safe (check_game_status g) = is_current_state_safe g"
  by (simp add: is_current_state_safe_def)

lemma travel_success:
  assumes "travel g = Inr ((True, msg), g')"
  obtains g2 where "\<not> is_game_over (state g)" "boat_crew (state g) \<noteq> []"
    "int (length (boat_crew (state g))) \<le> boat_capacity (state g)"
    "move_passengers (if boat_side (state g) = LEFT then RIGHT else LEFT) (boat_crew (state g))
       (g\<lparr>state := (state g)\<lparr>boat_side := (if boat_side (state g) = LEFT then RIGHT else LEFT)\<rparr>\<rparr>)
       = Inr g2"
    "msg = Traveled_to (if boat_side (state g) = LEFT then RIGHT else LEFT)"
    "g' = check_game_status (landed g g2)"
  using assms
  by (auto simp: travel_def can_travel_def Let_def landed_def
      split: sum.splits prod.splits if_splits)

lemma travel_failure:
  assumes "travel g = Inr ((False, msg), g')"
  shows "g' = g" "can_travel g = (False, msg)"
  using assms
  by (auto simp: travel_def Let_def split: sum.splits prod.splits if_splits)

lemma travel_returns:
  assumes "crew_known g"
  shows "\<exists>r g'. travel g = Inr (r, g')"
proof -
  let ?n = "if boat_side (state g) = LEFT then RIGHT else LEFT"
  let ?g1 = "g\<lparr>state := (state g)\<lparr>boat_side := ?n\<rparr>\<rparr>"
  have "\<forall>cid \<in> set (boat_crew (state g)). type_of (characters ?g1) cid \<noteq> None"
    using assms by (simp add: crew_known_def)
  then obtain g2 where "move_passengers ?n (boat_crew (state g)) ?g1 = Inr g2"
    using move_passengers_ok by blast
  then show ?thesis
    by (cases "boat_side (state g)"; cases "can_travel g"; auto simp: travel_def Let_def)
qed

lemma travel_invariant:
  assumes "travel g = Inr (r, g')" "crew_known g" "conserved m c g"
  shows "crew_known g' \<and> conserved m c g'"
proof (cases r)
  case (Pair ok msg)
  show ?thesis
  proof (cases ok)
    case False
    with Pair assms(1) have "g' = g" by (simp add: travel_failure(1))
    with assms show ?thesis by simp
  next
    case True
    with Pair assms(1) have "travel g = Inr ((True, msg), g')" by simp
    then obtain g2 where
      mp: "move_passengers (if boat_side (state g) = LEFT then RIGHT else LEFT) (boat_crew (state g))
       (g\<lparr>state := (state g)\<lparr>boat_side := (if boat_side (state g) = LEFT then RIGHT else LEFT)\<rparr>\<rparr>)
       = Inr g2"
      and g': "g' = check_game_status (landed g g2)"
      by (rule travel_success)
    have "crew_known g'"
      by (simp add: g' crew_known_def landed_def)
    moreover have "conserved m c g'"
      using assms(3) move_passengers_sums[OF mp]
      by (simp add: g' conserved_def boat_count_crew_types landed_def)
    ultimately show ?thesis by simp
  qed
qed

lemma initialize_game_invariant:
  "crew_known (initialize_game m c k) \<and> conserved m c (initialize_game m c k)"
  by (simp add: initialize_game_def crew_known_def conserved_def boat_count_def)

lemma do_call_returns: "crew_known g \<Longrightarrow> \<exists>r g'. do_call g c = Inr (r, g')"
  using add_to_boat_returns[of g] remove_from_boat_returns[of g] travel_returns[of g]
  by (cases c) (simp_all add: do_call_def)

lemma do_call_invariant:
  "do_call g c = Inr (r, g') \<Longrightarrow> crew_known g \<Longrightarrow> conserved m k g
     \<Longrightarrow> crew_known g' \<and> conserved m k g'"
  by (cases c)
     (simp_all add: do_call_def add_to_boat_invariant remove_from_boat_invariant travel_invariant)

lemma run_invariant:
  "crew_known g \<Longrightarrow> conserved m c g
     \<Longrightarrow> \<exists>g'. run calls g = Inr g' \<and> crew_known g' \<and> conserved m c g'"
proof (induction calls arbitrary: g)
  case Nil
  then show ?case by simp
next
  case (Cons a calls)
  from do_call_returns[OF Cons.prems(1)] obtain r g1 where a: "do_call g a = Inr (r, g1)"
    by blast
  from do_call_invariant[OF a Cons.prems] Cons.IH[of g1] a show ?case by simp
qed

lemma set_location_same:
  "find (\<lambda>ch. char_id ch = cid) chs = Some ch \<Longrightarrow> location ch = s \<Longrightarrow> set_location cid s chs = chs"
  by (induction chs) (auto split: if_splits)

lemma find_set_location:
  "find (\<lambda>ch. char_id ch = cid) chs = Some ch
     \<Longrightarrow> find (\<lambda>ch. char_id ch = cid) (set_location cid s chs) = Some (ch\<lparr>location := s\<rparr>)"
  by (induction chs) (auto split: if_splits)

section \<open>Properties of the validator and the solver\<close>




lemma admissible_length: "admissible leading used ls ds \<Longrightarrow> length ds = length ls"
  by (induction leading used ls ds rule: admissible.induct) auto






lemma map_filter_Some [simp]: "List.map_filter (\<lambda>d. d) (map Some ds) = ds"
  by (induction ds) (auto simp: List.map_filter_simps)
















lemma digit_unique_key:
  "distinct (List.map_filter (\<lambda>d. d) (map snd gm)) \<Longrightarrow> (a, Some d) \<in> set gm
     \<Longrightarrow> (b, Some d) \<in> set gm \<Longrightarrow> a = b"
proof (induction gm)
  case Nil
  then show ?case by simp
next
  case (Cons x gm)
  have mem: "\<And>k. (k, Some d) \<in> set gm \<Longrightarrow> d \<in> set (List.map_filter (\<lambda>d. d) (map snd gm))"
    by (force simp: List.map_filter_def)
  from Cons show ?case
    by (cases x; cases "snd x") (auto simp: List.map_filter_simps dest: mem)
qed

lemma missing_letters_length:
  assumes "distinct (map fst gm)" "set (map fst gm) \<subseteq> set letters"
    and "l \<in> set letters" "l \<notin> set (map fst gm)"
  shows "length gm \<noteq> length letters"
proof -
  have "set (map fst gm) \<subset> set letters" using assms(2,3,4) by blast
  then have "card (set (map fst gm)) < card (set letters)"
    by (intro psubset_card_mono) simp_all
  also have "\<dots> \<le> length letters" by (rule card_length)
  finally show ?thesis
    using distinct_card[OF assms(1)] by simp
qed







section \<open>Properties of the controller\<close>

lemma get_level_count_3 [simp]: "get_level_count = 3"
  by (simp add: get_level_count_def LEVELS_def)

lemma load_level_frame [simp]:
  "persistence_calls (load_level c i) = persistence_calls c"
  "highest_level_completed (load_level c i) = highest_level_completed c"
  "pending_checks (load_level c i) = pending_checks c"
  "river_game (load_level c i) = river_game c"
  by (simp_all add: load_level_def)

lemma on_river_complete_frame [simp]:
  "pending_checks (on_river_complete c) = pending_checks c"
  "river_game (on_river_complete c) = river_game c"
  by (simp_all add: on_river_complete_def Let_def)







lemma loads_append [simp]: "loads (xs @ ys) = loads xs + loads ys"
  by (simp add: loads_def)



lemma session_snoc: "session stored (events @ [e]) = handle (session stored events) e"
  by (simp add: session_def)



lemma saves_append [simp]: "saves (xs @ ys) = saves xs @ saves ys"
  by (simp add: saves_def)

lemma conserved_self:
  "conserved (missionaries_left (state g) + missionaries_right (state g) + boat_count g MISSIONARY)
     (cannibals_left (state g) + cannibals_right (state g) + boat_count g CANNIBAL) g"
  by (simp add: conserved_def)

lemma crew_known_add: "add_to_boat g i = Inr (r, g') \<Longrightarrow> crew_known g \<Longrightarrow> crew_known g'"
  using add_to_boat_invariant[OF _ _ conserved_self] by blast

lemma crew_known_remove: "remove_from_boat g i = Inr (r, g') \<Longrightarrow> crew_known g \<Longrightarrow> crew_known g'"
  using remove_from_boat_invariant[OF _ _ conserved_self] by blast

lemma crew_known_travel: "travel g = Inr (r, g') \<Longrightarrow> crew_known g \<Longrightarrow> crew_known g'"
  using travel_invariant[OF _ _ conserved_self] by blast

lemma crew_known_initialize: "crew_known (initialize_game m c k)"
  using initialize_game_invariant by blast

lemma handle_crew_known:
  assumes "crew_known (river_game c)"
  shows "crew_known (river_game (handle c e))"
proof (cases e)
  case (Crypto_solution v)
  then show ?thesis
    using assms by (simp add: handle_def on_crypto_solution_def Let_def crew_known_initialize)
next
  case (Character_click i)
  then show ?thesis
    using assms
    by (auto simp: handle_def on_character_click_def
        split: option.splits sum.splits prod.splits if_splits
        dest: crew_known_add crew_known_remove)
next
  case Travel_click
  then show ?thesis
    using assms
    by (auto simp: handle_def travel_boat_def split: sum.splits prod.splits
        dest: crew_known_travel)
next
  case Restart_click
  then show ?thesis
    using assms
    by (simp add: handle_def restart_river_challenge_def restart_game_def crew_known_initialize)
next
  case Status_check
  then show ?thesis
    using assms
    by (simp add: handle_def check_status_def restart_river_challenge_def restart_game_def
        crew_known_initialize)
qed

lemma session_crew_known: "crew_known (river_game (session stored events))"
proof (induction events rule: rev_induct)
  case Nil
  show ?case
    by (simp add: session_def controller_init_def new_game_def crew_known_def)
next
  case (snoc e events)
  then show ?case by (simp add: session_snoc handle_crew_known)
qed

lemma session_no_exception:
  "\<exists>r g. travel (river_game (session stored events)) = Inr (r, g)"
  "\<exists>r g. add_to_boat (river_game (session stored events)) i = Inr (r, g)"
  "\<exists>r g. remove_from_boat (river_game (session stored events)) i = Inr (r, g)"
  using travel_returns[OF session_crew_known] add_to_boat_returns
    remove_from_boat_returns[OF session_crew_known]
  by blast+


section \<open>The claims about the engine\<close>

text \<open>
  Claim C1. For a game set up by \<open>initialize_game\<close> with totals \<open>m\<close> and \<open>c\<close>, every finite
  sequence of \<open>add_to_boat\<close>, \<open>remove_from_boat\<close> and \<open>travel\<close> calls runs without an
  exception, and in the game it reaches the missionaries on the left bank, on the right bank
  and in the boat crew add up to \<open>m\<close>, and the cannibals to \<open>c\<close>. Every prefix of a sequence is
  a sequence, so this holds at every point, also once the game is over.
\<close>

theorem conservation:
  "\<exists>g. run calls (initialize_game m c k) = Inr g
       \<and> missionaries_left (state g) + missionaries_right (state g) + boat_count g MISSIONARY = m
       \<and> cannibals_left (state g) + cannibals_right (state g) + boat_count g CANNIBAL = c"
  using run_invariant[of "initialize_game m c k" m c calls] initialize_game_invariant[of m c k]
  by (auto simp: conserved_def)

theorem conservation_witness:
  "\<exists>g. run [Add ''M1'', Travel, Add ''C4''] (initialize_game 3 3 2) = Inr g
       \<and> is_game_over (state g)
       \<and> missionaries_left (state g) + missionaries_right (state g) + boat_count g MISSIONARY = 3
       \<and> cannibals_left (state g) + cannibals_right (state g) + boat_count g CANNIBAL = 3"
proof -
  from conservation [of "[Add ''M1'', Travel, Add ''C4'']" 3 3 2]
  obtain g where g: "run [Add ''M1'', Travel, Add ''C4''] (initialize_game 3 3 2) = Inr g"
    and sums: "missionaries_left (state g) + missionaries_right (state g) + boat_count g MISSIONARY = 3"
      "cannibals_left (state g) + cannibals_right (state g) + boat_count g CANNIBAL = 3"
    by blast
  have "case run [Add ''M1'', Travel, Add ''C4''] (initialize_game 3 3 2) of
          Inr g \<Rightarrow> is_game_over (state g) | Inl e \<Rightarrow> False"
    by code_simp
  with g have "is_game_over (state g)" by simp
  with g sums show ?thesis by blast
qed

text \<open>
  Claim C2. A successful \<open>travel\<close> starts from a game that is not over, empties the boat and
  ends with the terminal evaluation of the game it produced: unsafe means lost
  (\<open>is_game_over\<close> set, \<open>is_won\<close> cleared); otherwise both left counts zero (the crew being
  empty) means won; otherwise the game is still not over and \<open>is_won\<close> is what it was. A
  failed \<open>travel\<close> changes nothing, and \<open>add_to_boat\<close> and \<open>remove_from_boat\<close> never change
  the two flags.
\<close>

theorem terminal_evaluation:
  "(travel g = Inr ((True, msg), g') \<longrightarrow>
       \<not> is_game_over (state g) \<and> boat_crew (state g') = []
     \<and> (if \<not> is_current_state_safe g'
         then is_game_over (state g') \<and> \<not> is_won (state g')
         else if missionaries_left (state g') = 0 \<and> cannibals_left (state g') = 0
         then is_game_over (state g') \<and> is_won (state g')
         else \<not> is_game_over (state g') \<and> is_won (state g') = is_won (state g)))
   \<and> (travel g = Inr ((False, msg), g') \<longrightarrow> g' = g)
   \<and> (add_to_boat g cid = Inr (r, g1) \<longrightarrow>
        is_game_over (state g1) = is_game_over (state g) \<and> is_won (state g1) = is_won (state g))
   \<and> (remove_from_boat g cid = Inr (r', g2) \<longrightarrow>
        is_game_over (state g2) = is_game_over (state g) \<and> is_won (state g2) = is_won (state g))"
proof (intro conjI impI)
  assume t: "travel g = Inr ((True, msg), g')"
  then obtain g2 where over: "\<not> is_game_over (state g)"
    and mp: "move_passengers (if boat_side (state g) = LEFT then RIGHT else LEFT) (boat_crew (state g))
       (g\<lparr>state := (state g)\<lparr>boat_side := (if boat_side (state g) = LEFT then RIGHT else LEFT)\<rparr>\<rparr>)
       = Inr g2"
    and g': "g' = check_game_status (landed g g2)"
    by (rule travel_success)
  show "\<not> is_game_over (state g)" by (rule over)
  show "boat_crew (state g') = []" by (simp add: g' landed_def)
  have flags: "is_game_over (state (landed g g2)) = False" "is_won (state (landed g g2)) = is_won (state g)"
    using move_passengers_frame(7,8)[OF mp] over by (simp_all add: landed_def)
  have crew: "boat_crew (state (landed g g2)) = []" by (simp add: landed_def)
  show "if \<not> is_current_state_safe g'
         then is_game_over (state g') \<and> \<not> is_won (state g')
         else if missionaries_left (state g') = 0 \<and> cannibals_left (state g') = 0
         then is_game_over (state g') \<and> is_won (state g')
         else \<not> is_game_over (state g') \<and> is_won (state g') = is_won (state g)"
    unfolding g' using flags crew
    by (cases "is_current_state_safe (landed g g2)") (auto simp: check_game_status_def is_current_state_safe_def)
next
  assume "travel g = Inr ((False, msg), g')"
  then show "g' = g" by (rule travel_failure(1))
next
  assume a: "add_to_boat g cid = Inr (r, g1)"
  then show "is_game_over (state g1) = is_game_over (state g)"
    by (auto simp: add_to_boat_def Let_def split: prod.splits if_splits option.splits)
  from a show "is_won (state g1) = is_won (state g)"
    by (auto simp: add_to_boat_def Let_def split: prod.splits if_splits option.splits)
next
  assume a: "remove_from_boat g cid = Inr (r', g2)"
  then show "is_game_over (state g2) = is_game_over (state g)"
    by (auto simp: remove_from_boat_def Let_def split: prod.splits if_splits option.splits)
  from a show "is_won (state g2) = is_won (state g)"
    by (auto simp: remove_from_boat_def Let_def split: prod.splits if_splits option.splits)
qed

theorem terminal_evaluation_witness:
  "\<exists>g1 g2 g3 h1 h2 k1 k2.
      add_to_boat (initialize_game 1 1 2) ''M1'' = Inr ((True, Added_to_boat ''M1''), g1)
    \<and> add_to_boat g1 ''C2'' = Inr ((True, Added_to_boat ''C2''), g2)
    \<and> travel g2 = Inr ((True, Traveled_to RIGHT), g3)
    \<and> is_game_over (state g3) \<and> is_won (state g3)
    \<and> add_to_boat (initialize_game 3 3 2) ''M1'' = Inr ((True, Added_to_boat ''M1''), h1)
    \<and> travel h1 = Inr ((True, Traveled_to RIGHT), h2)
    \<and> is_game_over (state h2) \<and> \<not> is_won (state h2)
    \<and> add_to_boat (initialize_game 3 3 2) ''C4'' = Inr ((True, Added_to_boat ''C4''), k1)
    \<and> travel k1 = Inr ((True, Traveled_to RIGHT), k2)
    \<and> \<not> is_game_over (state k2) \<and> \<not> is_won (state k2)"
proof -
  define g1 where "g1 = snd (projr (add_to_boat (initialize_game 1 1 2) ''M1''))"
  define g2 where "g2 = snd (projr (add_to_boat g1 ''C2''))"
  define g3 where "g3 = snd (projr (travel g2))"
  define h1 where "h1 = snd (projr (add_to_boat (initialize_game 3 3 2) ''M1''))"
  define h2 where "h2 = snd (projr (travel h1))"
  define k1 where "k1 = snd (projr (add_to_boat (initialize_game 3 3 2) ''C4''))"
  define k2 where "k2 = snd (projr (travel k1))"
  have g: "add_to_boat (initialize_game 1 1 2) ''M1'' = Inr ((True, Added_to_boat ''M1''), g1)"
    "add_to_boat g1 ''C2'' = Inr ((True, Added_to_boat ''C2''), g2)"
    "travel g2 = Inr ((True, Traveled_to RIGHT), g3)"
    unfolding g3_def g2_def g1_def by code_simp+
  have g3: "is_current_state_safe g3" "missionaries_left (state g3) = 0" "cannibals_left (state g3) = 0"
    unfolding g3_def g2_def g1_def by code_simp+
  have h: "add_to_boat (initialize_game 3 3 2) ''M1'' = Inr ((True, Added_to_boat ''M1''), h1)"
    "travel h1 = Inr ((True, Traveled_to RIGHT), h2)"
    unfolding h2_def h1_def by code_simp+
  have h2: "\<not> is_current_state_safe h2"
    unfolding h2_def h1_def by code_simp
  have k: "add_to_boat (initialize_game 3 3 2) ''C4'' = Inr ((True, Added_to_boat ''C4''), k1)"
    "travel k1 = Inr ((True, Traveled_to RIGHT), k2)"
    unfolding k2_def k1_def by code_simp+
  have k2: "is_current_state_safe k2" "missionaries_left (state k2) = 3" "\<not> is_won (state k1)"
    unfolding k2_def k1_def by code_simp+
  from terminal_evaluation [of g2 "Traveled_to RIGHT" g3] g(3) g3
  have won: "is_game_over (state g3) \<and> is_won (state g3)" by simp
  from terminal_evaluation [of h1 "Traveled_to RIGHT" h2] h(2) h2
  have lost: "is_game_over (state h2) \<and> \<not> is_won (state h2)" by simp
  from terminal_evaluation [of k1 "Traveled_to RIGHT" k2] k(2) k2
  have active: "\<not> is_game_over (state k2) \<and> \<not> is_won (state k2)" by simp
  from g h k won lost active show ?thesis by blast
qed

text \<open>
  Claim C3. For counts that are not negative, \<open>is_safe m c\<close> is false exactly when \<open>m > 0\<close>
  and \<open>c > m\<close>: true for \<open>m = 0\<close>, true for \<open>m > 0\<close> and \<open>c \<le> m\<close>, false for \<open>m > 0\<close> and
  \<open>c > m\<close>. The engine's \<open>is_safe_state\<close> on four counts holds exactly when both banks
  satisfy \<open>is_safe\<close>.
\<close>

theorem is_safe_characterisation:
  assumes "0 \<le> m" "0 \<le> c" "0 \<le> m'" "0 \<le> c'"
  shows "(is_safe m c \<longleftrightarrow> \<not> (m > 0 \<and> c > m))
       \<and> (m = 0 \<longrightarrow> is_safe m c)
       \<and> (m > 0 \<and> c \<le> m \<longrightarrow> is_safe m c)
       \<and> (m > 0 \<and> c > m \<longrightarrow> \<not> is_safe m c)
       \<and> (is_safe_state m c m' c' \<longleftrightarrow> is_safe m c \<and> is_safe m' c')"
  using assms by (auto simp: is_safe_def is_safe_state_def)

theorem is_safe_characterisation_witness:
  "is_safe 0 5 \<and> is_safe 3 3 \<and> \<not> is_safe 2 3 \<and> \<not> is_safe_state 2 3 0 5
     \<and> is_safe_state 0 5 3 3"
  using is_safe_characterisation [of 0 5 3 3] is_safe_characterisation [of 3 3 0 5]
    is_safe_characterisation [of 2 3 0 5]
  by simp

text \<open>
  Claim C5. \<open>add_to_boat\<close> always returns, and it fails exactly when the game is over, no
  character has the id, the character is not on the boat's side, the crew has reached the
  capacity, or the id is in the crew already; safety of the banks plays no part. A failed
  call leaves the whole game as it was and reports the first of these checks that failed.
  With capacity 2 and two ids in the crew, adding a character standing on the boat's side
  fails with the capacity message and the crew keeps its two ids.
\<close>

theorem add_to_boat_failures:
  "\<exists>ok msg g'. add_to_boat g cid = Inr ((ok, msg), g')
     \<and> (\<not> ok \<longleftrightarrow>
            is_game_over (state g)
          \<or> get_character g cid = None
          \<or> (\<exists>ch. get_character g cid = Some ch \<and> location ch \<noteq> boat_side (state g))
          \<or> boat_capacity (state g) \<le> int (length (boat_crew (state g)))
          \<or> cid \<in> set (boat_crew (state g)))
     \<and> (\<not> ok \<longrightarrow> g' = g \<and> msg = failing_check g cid)
     \<and> (\<not> is_game_over (state g)
          \<and> (\<exists>ch. get_character g cid = Some ch \<and> location ch = boat_side (state g))
          \<and> boat_capacity (state g) = 2 \<and> length (boat_crew (state g)) = 2
        \<longrightarrow> \<not> ok \<and> msg = Boat_is_full 2 \<and> length (boat_crew (state g')) = 2)"
  by (auto simp: add_to_boat_def can_add_to_boat_def failing_check_def Let_def
      split: option.splits)

theorem add_to_boat_failures_witness:
  "\<exists>g1 g2 g3.
      add_to_boat (initialize_game 3 3 2) ''M1'' = Inr ((True, Added_to_boat ''M1''), g1)
    \<and> add_to_boat g1 ''M2'' = Inr ((True, Added_to_boat ''M2''), g2)
    \<and> \<not> is_current_state_safe g2
    \<and> add_to_boat g2 ''M3'' = Inr ((False, Boat_is_full 2), g3)
    \<and> g3 = g2 \<and> length (boat_crew (state g3)) = 2"
proof -
  define g1 where "g1 = snd (projr (add_to_boat (initialize_game 3 3 2) ''M1''))"
  define g2 where "g2 = snd (projr (add_to_boat g1 ''M2''))"
  have a1: "add_to_boat (initialize_game 3 3 2) ''M1'' = Inr ((True, Added_to_boat ''M1''), g1)"
    unfolding g1_def by code_simp
  have a2: "add_to_boat g1 ''M2'' = Inr ((True, Added_to_boat ''M2''), g2)"
    unfolding g2_def g1_def by code_simp
  have unsafe: "\<not> is_current_state_safe g2"
    unfolding g2_def g1_def by code_simp
  have pre: "\<not> is_game_over (state g2)"
    "get_character g2 ''M3'' = Some \<lparr>char_id = ''M3'', char_type = MISSIONARY, location = LEFT\<rparr>"
    "boat_side (state g2) = LEFT" "boat_capacity (state g2) = 2" "length (boat_crew (state g2)) = 2"
    unfolding g2_def g1_def by code_simp+
  from add_to_boat_failures [of g2 "''M3''"] pre
  obtain g3 where "add_to_boat g2 ''M3'' = Inr ((False, Boat_is_full 2), g3)"
    "g3 = g2" "length (boat_crew (state g3)) = 2"
    by auto
  with a1 a2 unsafe show ?thesis by blast
qed

text \<open>
  Claim C10. When \<open>add_to_boat g cid\<close> succeeds, \<open>remove_from_boat\<close> of the same id on the
  game it produced succeeds and gives back \<open>g\<close> itself: counts, crew, boat side, characters
  and their locations, move counter, flags and history.
\<close>

theorem add_then_remove_restores:
  assumes "add_to_boat g cid = Inr ((True, msg), g1)"
  shows "remove_from_boat g1 cid = Inr ((True, Removed_from_boat cid), g)"
proof -
  from assms obtain ch where ch: "get_character g cid = Some ch"
    and over: "\<not> is_game_over (state g)"
    and loc: "location ch = boat_side (state g)"
    and new: "cid \<notin> set (boat_crew (state g))"
    and g1: "g1 = g\<lparr>state := update_side_count (boat_side (state g)) (char_type ch) (- 1)
                      ((state g)\<lparr>boat_crew := boat_crew (state g) @ [cid]\<rparr>),
             characters := set_location cid (boat_side (state g)) (characters g)\<rparr>"
    by (rule add_to_boat_success)
  have f: "find (\<lambda>ch. char_id ch = cid) (characters g) = Some ch"
    using ch by (simp add: get_character_def)
  have same: "set_location cid (boat_side (state g)) (characters g) = characters g"
    using f loc by (rule set_location_same)
  have crew: "remove1 cid (boat_crew (state g) @ [cid]) = boat_crew (state g)"
    using new by (simp add: remove1_append)
  have can: "can_remove_from_boat g1 cid = (True, Can_remove_from_boat)"
    using over by (simp add: g1 can_remove_from_boat_def)
  have get: "get_character g1 cid = Some ch"
    using f by (simp add: g1 same get_character_def)
  have side: "boat_side (state g1) = boat_side (state g)"
    by (simp add: g1)
  have st: "update_side_count (boat_side (state g)) (char_type ch) 1
              ((state g1)\<lparr>boat_crew := remove1 cid (boat_crew (state g1))\<rparr>) = state g"
    by (simp add: g1 crew) (simp add: update_side_count_def)
  have chs: "set_location cid (boat_side (state g)) (characters g1) = characters g"
    by (simp add: g1 same)
  have whole: "g1\<lparr>state := state g, characters := characters g\<rparr> = g"
    by (simp add: g1)
  show ?thesis
    by (simp add: remove_from_boat_def can get Let_def side st chs whole)
qed

theorem add_then_remove_restores_witness:
  "\<exists>g1. add_to_boat (initialize_game 3 3 2) ''C4'' = Inr ((True, Added_to_boat ''C4''), g1)
        \<and> boat_crew (state g1) = [''C4''] \<and> cannibals_left (state g1) = 2
        \<and> remove_from_boat g1 ''C4''
            = Inr ((True, Removed_from_boat ''C4''), initialize_game 3 3 2)"
proof -
  define g1 where "g1 = snd (projr (add_to_boat (initialize_game 3 3 2) ''C4''))"
  have a: "add_to_boat (initialize_game 3 3 2) ''C4'' = Inr ((True, Added_to_boat ''C4''), g1)"
    unfolding g1_def by code_simp
  have b: "boat_crew (state g1) = [''C4'']" "cannibals_left (state g1) = 2"
    unfolding g1_def by code_simp+
  from add_then_remove_restores [OF a] a b show ?thesis by blast
qed

section \<open>The claim about the controller\<close>




section \<open>The claims about the validator and the solver\<close>




text \<open>
  Claim C6. A candidate assignment is a dictionary, so its keys do not repeat, and its keys
  are among the unique letters of the puzzle, as the data model has it and as the entry
  fields of the puzzle build it. For every puzzle and every such assignment, if a unique
  letter has no entry, the validator answers \<open>Missing_assignments\<close> with the missing letters
  in sorted order. Nothing is assumed about the digits, the leading letters or the
  arithmetic: the completeness check is decided before the other three.
\<close>

theorem missing_assignment_reported:
  assumes "current_puzzle solver = Some p"
    and "distinct (map fst guess_map)"
    and "set (map fst guess_map) \<subseteq> set (puzzle_unique_letters p)"
    and "\<exists>l \<in> set (puzzle_unique_letters p). map_of guess_map l = None"
  shows "validate_input solver guess_map
           = (False, Missing_assignments
                (sorted_list_of_set {l \<in> set (puzzle_unique_letters p). map_of guess_map l = None}))"
proof -
  let ?ls = "puzzle_unique_letters p"
  let ?missing = "filter (\<lambda>l. l \<notin> set (map fst guess_map)) ?ls"
  from assms(4) obtain l where l: "l \<in> set ?ls" "l \<notin> set (map fst guess_map)"
    by (auto simp: map_of_eq_None_iff)
  have len: "length guess_map \<noteq> length ?ls"
    using assms(2,3) l by (rule missing_letters_length)
  have ne: "?missing \<noteq> []" using l by (auto simp: filter_empty_conv)
  have "set ?missing = {l \<in> set ?ls. map_of guess_map l = None}"
    by (auto simp: map_of_eq_None_iff)
  then have "sort (remdups ?missing)
      = sorted_list_of_set {l \<in> set ?ls. map_of guess_map l = None}"
    by (simp add: sorted_list_of_set_sort_remdups[symmetric])
  then show ?thesis
    using len ne by (simp add: validate_input_def assms(1) Let_def)
qed

theorem missing_assignment_reported_witness:
  "validate_input (set_puzzle new_solver [''A'', ''B'', ''C''] ''ABC'')
     [(CHR ''A'', Some 0), (CHR ''B'', Some 0)]
   = (False, Missing_assignments ''C'')"
proof -
  let ?s = "set_puzzle new_solver [''A'', ''B'', ''C''] ''ABC''"
  let ?p = "\<lparr> puzzle_words = [''A'', ''B'', ''C''], puzzle_unique_letters = ''ABC'' \<rparr>"
  let ?gm = "[(CHR ''A'', Some (0::int)), (CHR ''B'', Some 0)]"
  have p: "current_puzzle ?s = Some ?p" by (simp add: set_puzzle_def)
  have keys: "distinct (map fst ?gm)" "set (map fst ?gm) \<subseteq> set (puzzle_unique_letters ?p)"
    by simp_all
  have ex: "\<exists>l \<in> set (puzzle_unique_letters ?p). map_of ?gm l = None" by simp
  have "{l \<in> set (puzzle_unique_letters ?p). map_of ?gm l = None} = {CHR ''C''}" by auto
  with missing_assignment_reported [OF p keys ex] show ?thesis by simp
qed

text \<open>
  Claim C7, as amended. For an assignment that the completeness check lets through (as
  many entries as unique letters, or exactly their keys) and whose digits are pairwise
  distinct, a word whose first letter has the digit 0 makes the validator answer
  \<open>Leading_letter_zero\<close> for that letter, whatever the arithmetic is.
\<close>

theorem leading_zero_reported:
  assumes "current_puzzle solver = Some p"
    and "length guess_map = length (puzzle_unique_letters p)
         \<or> set (map fst guess_map) = set (puzzle_unique_letters p)"
    and "distinct (List.map_filter (\<lambda>d. d) (map snd guess_map))"
    and "word \<in> set (puzzle_words p)" "word \<noteq> []"
    and "map_of guess_map (hd word) = Some (Some 0)"
  shows "validate_input solver guess_map = (False, Leading_letter_zero (hd word))"
proof -
  let ?P = "\<lambda>word. word \<noteq> [] \<and> map_of guess_map (hd word) = Some (Some 0)"
  have "find ?P (puzzle_words p) \<noteq> None"
    using assms(4,5,6) by (auto simp: find_None_iff)
  then obtain w where w: "find ?P (puzzle_words p) = Some w" by blast
  then have "?P w" by (auto simp: find_Some_iff)
  then have "(hd w, Some 0) \<in> set guess_map" by (auto dest: map_of_SomeD)
  moreover have "(hd word, Some 0) \<in> set guess_map" using assms(6) by (rule map_of_SomeD)
  ultimately have same: "hd w = hd word" using assms(3) by (rule digit_unique_key[rotated])
  have r1: "length guess_map \<noteq> length (puzzle_unique_letters p)
      \<Longrightarrow> filter (\<lambda>l. l \<notin> set (map fst guess_map)) (puzzle_unique_letters p) = []
        \<and> filter (\<lambda>l. l \<notin> set (puzzle_unique_letters p)) (map fst guess_map) = []"
    using assms(2) by (auto simp: filter_empty_conv)
  have r2: "length (remdups (List.map_filter (\<lambda>d. d) (map snd guess_map)))
              = length (List.map_filter (\<lambda>d. d) (map snd guess_map))"
    using assms(3) by (simp add: distinct_remdups_id)
  show ?thesis
    using r1 r2 w same by (auto simp: validate_input_def assms(1) Let_def)
qed

theorem leading_zero_reported_witness:
  "validate_input (set_puzzle new_solver [''A'', ''B'', ''B''] ''AB'')
     [(CHR ''A'', Some 0), (CHR ''B'', Some 5)]
   = (False, Leading_letter_zero (CHR ''A''))
   \<and> word_to_number ''A'' [(CHR ''A'', Some 0), (CHR ''B'', Some 5)] = Inr 0
   \<and> word_to_number ''B'' [(CHR ''A'', Some 0), (CHR ''B'', Some 5)] = Inr 5"
proof -
  let ?s = "set_puzzle new_solver [''A'', ''B'', ''B''] ''AB''"
  let ?p = "\<lparr> puzzle_words = [''A'', ''B'', ''B''], puzzle_unique_letters = ''AB'' \<rparr>"
  let ?gm = "[(CHR ''A'', Some (0::int)), (CHR ''B'', Some 5)]"
  have p: "current_puzzle ?s = Some ?p" by (simp add: set_puzzle_def)
  have len: "length ?gm = length (puzzle_unique_letters ?p)" by simp
  have dist: "distinct (List.map_filter (\<lambda>d. d) (map snd ?gm))"
    by (simp add: List.map_filter_simps)
  have w: "''A'' \<in> set (puzzle_words ?p)" "''A'' \<noteq> []" "map_of ?gm (hd ''A'') = Some (Some 0)"
    by simp_all
  have n: "word_to_number ''A'' ?gm = Inr 0" "word_to_number ''B'' ?gm = Inr 5"
    by code_simp+
  from leading_zero_reported [OF p disjI1 [OF len] dist w] n show ?thesis by simp
qed

theorem leading_zero_counterexample:
  "map_of [(CHR ''A'', Some (0::int))] (hd ''A'') = Some (Some 0)
   \<and> validate_input (set_puzzle new_solver [''A'', ''A'', ''B''] ''AB'') [(CHR ''A'', Some 0)]
       = (False, Missing_assignments ''B'')"
  by code_simp




end
